theory Spec2Isabelle
  imports Main "HOL-Library.Char_ord" "HOL-Library.List_Lexorder" "HOL-Library.Multiset"
begin

section \<open>Strings of the Go runtime\<close>

text \<open>
  A Go string is a sequence of bytes; \<open>string\<close> (a list of 8-bit \<open>char\<close>) is the same
  thing, \<open>length\<close> is \<open>len\<close>, and the order \<open><\<close> of \<open>HOL-Library.List_Lexorder\<close> over
  \<open>HOL-Library.Char_ord\<close> is Go's bytewise lexicographic comparison of strings.
\<close>

text \<open>
  \<open>strings.HasPrefix(s, prefix)\<close> is
  \<^verbatim>\<open>len(s) >= len(prefix) && s[0:len(prefix)] == prefix\<close>.
\<close>

definition HasPrefix :: "string \<Rightarrow> string \<Rightarrow> bool" where
  "HasPrefix s p = (length p \<le> length s \<and> take (length p) s = p)"

text \<open>
  \<open>strings.TrimSpace(s)\<close> removes the leading and then the trailing white space of \<open>s\<close>,
  as \<open>unicode.IsSpace\<close> defines it on the runes that \<open>s\<close> decodes to as UTF-8. The white
  space runes are U+0009 to U+000D, U+0020, U+0085, U+00A0, U+1680, U+2000 to U+200A,
  U+2028, U+2029, U+202F, U+205F and U+3000; \<open>spaceRunes\<close> lists their UTF-8 encodings.
  UTF-8 is prefix free and Go decodes the last rune of a string from its last lead
  byte, so a string starts (ends) with a white space rune exactly when it starts (ends)
  with one of these byte sequences.
\<close>

definition spaceRunes :: "string list" where
  "spaceRunes =
    [[CHR 0x09], [CHR 0x0A], [CHR 0x0B], [CHR 0x0C], [CHR 0x0D], [CHR 0x20],
     [CHR 0xC2, CHR 0x85], [CHR 0xC2, CHR 0xA0],
     [CHR 0xE1, CHR 0x9A, CHR 0x80],
     [CHR 0xE2, CHR 0x80, CHR 0x80], [CHR 0xE2, CHR 0x80, CHR 0x81],
     [CHR 0xE2, CHR 0x80, CHR 0x82], [CHR 0xE2, CHR 0x80, CHR 0x83],
     [CHR 0xE2, CHR 0x80, CHR 0x84], [CHR 0xE2, CHR 0x80, CHR 0x85],
     [CHR 0xE2, CHR 0x80, CHR 0x86], [CHR 0xE2, CHR 0x80, CHR 0x87],
     [CHR 0xE2, CHR 0x80, CHR 0x88], [CHR 0xE2, CHR 0x80, CHR 0x89],
     [CHR 0xE2, CHR 0x80, CHR 0x8A],
     [CHR 0xE2, CHR 0x80, CHR 0xA8], [CHR 0xE2, CHR 0x80, CHR 0xA9],
     [CHR 0xE2, CHR 0x80, CHR 0xAF], [CHR 0xE2, CHR 0x81, CHR 0x9F],
     [CHR 0xE3, CHR 0x80, CHR 0x80]]"

function stripLeading :: "string list \<Rightarrow> string \<Rightarrow> string" where
  "stripLeading rs s =
     (case find (\<lambda>r. r \<noteq> [] \<and> HasPrefix s r) rs of
        None \<Rightarrow> s
      | Some r \<Rightarrow> stripLeading rs (drop (length r) s))"
  by pat_completeness auto
termination
proof (relation "measure (\<lambda>(rs, s). length s)")
  show "wf (measure (\<lambda>(rs, s). length s))"
    by simp
next
  fix rs :: "string list" and s r :: string
  assume "find (\<lambda>r. r \<noteq> [] \<and> HasPrefix s r) rs = Some r"
  then have "r \<noteq> [] \<and> HasPrefix s r"
    by (auto simp: find_Some_iff)
  then have "length r \<noteq> 0" and "length r \<le> length s"
    by (simp_all add: HasPrefix_def)
  then have "length s - length r < length s"
    by arith
  then show "((rs, drop (length r) s), (rs, s)) \<in> measure (\<lambda>(rs, s). length s)"
    by simp
qed

declare stripLeading.simps [simp del]

definition TrimLeftSpace :: "string \<Rightarrow> string" where
  "TrimLeftSpace s = stripLeading spaceRunes s"

definition TrimRightSpace :: "string \<Rightarrow> string" where
  "TrimRightSpace s = rev (stripLeading (map rev spaceRunes) (rev s))"

definition TrimSpace :: "string \<Rightarrow> string" where
  "TrimSpace s = TrimRightSpace (TrimLeftSpace s)"

section \<open>Links and the helpers of the crawler\<close>

text \<open>The \<open>Link\<close> struct of the \<open>links\<close> package: the target and the text of an anchor.\<close>

record Link =
  Href :: string
  Text :: string

definition schemes :: "string list" where
  "schemes = [''https://'', ''http://'']"

text \<open>\<open>hasScheme\<close>: the loop over the array \<open>schemes\<close>, returning at the first match.\<close>

fun hasScheme_loop :: "string list \<Rightarrow> string \<Rightarrow> string \<Rightarrow> bool" where
  "hasScheme_loop [] s withOption = False"
| "hasScheme_loop (p # ps) s withOption =
     (if HasPrefix s (p @ withOption) then True else hasScheme_loop ps s withOption)"

definition hasScheme :: "string \<Rightarrow> string \<Rightarrow> bool" where
  "hasScheme s withOption = hasScheme_loop schemes s withOption"

text \<open>\<open>filterLinks\<close> and \<open>mapLinks\<close> append to a result slice that starts empty.\<close>

fun filterLinks_loop :: "Link list \<Rightarrow> (Link \<Rightarrow> bool) \<Rightarrow> Link list \<Rightarrow> Link list" where
  "filterLinks_loop [] f res = res"
| "filterLinks_loop (l # links) f res =
     (if f l then filterLinks_loop links f (res @ [l]) else filterLinks_loop links f res)"

definition filterLinks :: "Link list \<Rightarrow> (Link \<Rightarrow> bool) \<Rightarrow> Link list" where
  "filterLinks links f = filterLinks_loop links f []"

text \<open>
  \<open>hasDomain\<close>: \<open>s[0]\<close> is read only behind the guard \<open>len(s) > 1\<close>, so the index is in range
  wherever its value matters. \<open>string(s[0]) == "/"\<close> holds exactly when the byte is 0x2F.
\<close>

definition hasDomain :: "string \<Rightarrow> string \<Rightarrow> bool" where
  "hasDomain s domain =
     (1 < length s \<and> (s ! 0 = CHR ''/'' \<or> hasScheme s (domain @ ''/'')))"

text \<open>
  \<open>sort.Search(n, f)\<close> of the Go library: a binary search for the least index in \<open>[0, n)\<close>
  at which \<open>f\<close> holds, which is right when \<open>f\<close> is monotone and returns some index or \<open>n\<close>
  otherwise. \<open>i + j\<close> stays below the length of a slice, so the halving does not wrap.
\<close>

function Search_loop :: "nat \<Rightarrow> nat \<Rightarrow> (nat \<Rightarrow> bool) \<Rightarrow> nat" where
  "Search_loop i j f =
     (if i < j then
        (let h = (i + j) div 2 in
         if \<not> f h then Search_loop (h + 1) j f else Search_loop i h f)
      else i)"
  by pat_completeness auto
termination
  by (relation "measure (\<lambda>(i, j, f). j - i)") auto

declare Search_loop.simps [simp del]

definition Search :: "nat \<Rightarrow> (nat \<Rightarrow> bool) \<Rightarrow> nat" where
  "Search n f = Search_loop 0 n f"

text \<open>
  \<open>purgeTwins\<close> first calls \<open>sort.Slice\<close> with the comparison of the \<open>Href\<close> fields.
  \<open>sort.Slice\<close> is not stable: among links of equal \<open>Href\<close> the order it leaves depends on
  the library's algorithm. The sort is therefore a parameter, and \<open>sortsByHref\<close> is its
  contract: the result is a rearrangement of the slice in ascending order of \<open>Href\<close>.
  The loop then appends a link when the search in the links kept so far returns their
  number.
\<close>

definition sortsByHref :: "(Link list \<Rightarrow> Link list) \<Rightarrow> bool" where
  "sortsByHref srt = (\<forall>links. mset (srt links) = mset links \<and> sorted (map Href (srt links)))"

fun purgeTwins_loop :: "Link list \<Rightarrow> Link list \<Rightarrow> Link list" where
  "purgeTwins_loop [] uniqLinks = uniqLinks"
| "purgeTwins_loop (l # links) uniqLinks =
     (let i = Search (length uniqLinks) (\<lambda>i. Href l = Href (uniqLinks ! i)) in
      if length uniqLinks \<le> i then purgeTwins_loop links (uniqLinks @ [l])
      else purgeTwins_loop links uniqLinks)"

definition purgeTwins :: "(Link list \<Rightarrow> Link list) \<Rightarrow> Link list \<Rightarrow> Link list" where
  "purgeTwins sortSlice links = purgeTwins_loop (sortSlice links) []"

section \<open>Errors, panics and the world outside the program\<close>

text \<open>
  Go code fails in two ways. A function returns an \<open>error\<close> value, which the caller may
  test, pass on or drop; or the runtime panics (an index out of range, or \<open>panic(err)\<close> in
  \<open>main\<close>), which unwinds every frame and ends the process with status 2. The first is
  a sum \<open>error + 'a\<close> or an \<open>error option\<close>, the second the constructor \<open>Panics\<close> of
  \<open>exec\<close>.
\<close>

datatype error = FetchError | ParseError | MarshalError | IOError

datatype panic = IndexOutOfRange | PanicErr error

datatype 'a exec = Panics panic | Returns 'a

text \<open>The struct \<open>url\<close> that \<open>writeXml\<close> marshals.\<close>

datatype url = Url (Loc: string)

text \<open>
  What the program takes from outside its own file:
  \<^item> \<open>httpGet\<close>: \<open>http.Get\<close>, an error or a response, the response being what
    \<open>ioutil.ReadAll\<close> of its body will give, an error or the bytes of the page;
  \<^item> \<open>htmlParse\<close>: \<open>html.Parse\<close> followed by \<open>Parse\<close> of the \<open>links\<close> package, the parser's
    error or the anchors of the page in document order;
  \<^item> \<open>sortSlice\<close>: \<open>sort.Slice\<close> on links compared by \<open>Href\<close>;
  \<^item> \<open>mapRange\<close>: the order in which a \<open>range\<close> over the map \<open>mLinks\<close> visits its
    values, which Go leaves unspecified and varies from run to run;
  \<^item> \<open>xmlMarshalIndent\<close>: \<open>xml.MarshalIndent\<close> with the prefix and indent of \<open>writeXml\<close>;
  \<^item> \<open>osCreate\<close>: \<open>os.Create\<close>, its error if the file cannot be created.
\<close>

record env =
  httpGet :: "string \<Rightarrow> error + (error + string)"
  htmlParse :: "string \<Rightarrow> error + Link list"
  sortSlice :: "Link list \<Rightarrow> Link list"
  mapRange :: "Link list \<Rightarrow> Link list"
  xmlMarshalIndent :: "url list \<Rightarrow> error + string"
  osCreate :: "string \<Rightarrow> error option"

definition loadPage :: "env \<Rightarrow> string \<Rightarrow> error + string" where
  "loadPage E url =
     (case httpGet E url of
        Inl err \<Rightarrow> Inl err
      | Inr resp \<Rightarrow> (case resp of Inl err \<Rightarrow> Inl err | Inr body \<Rightarrow> Inr body))"

text \<open>
  \<open>mapLinks\<close> calls \<open>f\<close> on every link; a panic of \<open>f\<close> ends the loop and the caller.
\<close>

fun mapLinks_loop :: "Link list \<Rightarrow> (Link \<Rightarrow> Link exec) \<Rightarrow> Link list \<Rightarrow> Link list exec" where
  "mapLinks_loop [] f res = Returns res"
| "mapLinks_loop (l # links) f res =
     (case f l of Panics p \<Rightarrow> Panics p | Returns l' \<Rightarrow> mapLinks_loop links f (res @ [l']))"

definition mapLinks :: "Link list \<Rightarrow> (Link \<Rightarrow> Link exec) \<Rightarrow> Link list exec" where
  "mapLinks links f = mapLinks_loop links f []"

text \<open>
  The two closures of \<open>parsePage\<close>. \<open>sameDomain\<close> is the predicate given to \<open>filterLinks\<close>:
  it tests the trimmed \<open>Href\<close>. \<open>normalize\<close> is the function given to \<open>mapLinks\<close>: it reads
  byte 0 of the \<open>Href\<close> as stored (not trimmed), which panics on the empty string.
\<close>

definition sameDomain :: "string \<Rightarrow> Link \<Rightarrow> bool" where
  "sameDomain domain l = (let ref = TrimSpace (Href l) in ref \<noteq> [] \<and> hasDomain ref domain)"

definition normalize :: "string \<Rightarrow> Link \<Rightarrow> Link exec" where
  "normalize domain l =
     (case Href l of
        [] \<Rightarrow> Panics IndexOutOfRange
      | c # cs \<Rightarrow>
          if c = CHR ''/'' then Returns \<lparr>Href = schemes ! 0 @ domain @ Href l, Text = Text l\<rparr>
          else Returns l)"

definition parsePage :: "env \<Rightarrow> string \<Rightarrow> string \<Rightarrow> (error + Link list) exec" where
  "parsePage E url domain =
     (case loadPage E url of
        Inl err \<Rightarrow> Returns (Inl err)
      | Inr body \<Rightarrow>
          (case htmlParse E body of
             Inl err \<Rightarrow> Returns (Inl err)
           | Inr links \<Rightarrow>
               (let filteredLinks = filterLinks links (sameDomain domain) in
                case mapLinks filteredLinks (normalize domain) of
                  Panics p \<Rightarrow> Panics p
                | Returns normalizedLinks \<Rightarrow>
                    Returns (Inr (purgeTwins (sortSlice E) normalizedLinks)))))"

section \<open>The traversal\<close>

text \<open>
  The global map \<open>mLinks\<close> is a list of key and value pairs with distinct keys:
  \<open>map_of\<close> is the lookup and \<open>mapAssign\<close> the assignment \<open>m[k] = v\<close>. The state also
  keeps \<open>expanded\<close>, a log that is not in the program: the URLs \<open>parsePage\<close> was called
  on, each with the \<open>depth\<close> of the call of \<open>findAll\<close> that made the call, in order, so that
  what was fetched can be stated.
\<close>

type_synonym registry = "(string \<times> Link) list"

fun mapAssign :: "registry \<Rightarrow> string \<Rightarrow> Link \<Rightarrow> registry" where
  "mapAssign [] k v = [(k, v)]"
| "mapAssign ((k', v') # m) k v =
     (if k' = k then (k, v) # m else (k', v') # mapAssign m k v)"

record state =
  mLinks :: registry
  expanded :: "(string \<times> int) list"

text \<open>The state at program start: \<open>mLinks\<close> is made empty.\<close>

definition start :: state where
  "start = \<lparr>mLinks = [], expanded = []\<rparr>"

text \<open>
  \<open>findAll\<close> reads the global \<open>maxDepth\<close>, here its second argument. A page may link to
  ever new pages, so the recursion need not end: the third argument bounds the depth
  of the nested calls and \<open>None\<close> says that the bound did not suffice. The result
  of the nested call is dropped as in the source (line 144); only its effect on the state
  and a panic come back. \<open>depth\<close> is a Go \<open>int\<close>; it grows by one per nested call and cannot
  reach \<open>2^63\<close>.
\<close>

fun findAll ::
  "env \<Rightarrow> int \<Rightarrow> nat \<Rightarrow> Link list \<Rightarrow> string \<Rightarrow> int \<Rightarrow> state \<Rightarrow> (error option \<times> state) exec option"
where
  "findAll E maxDepth n [] domain depth s = Some (Returns (None, s))"
| "findAll E maxDepth n (link # links) domain depth s =
     (if map_of (mLinks s) (Href link) \<noteq> None then findAll E maxDepth n links domain depth s
      else
        let s1 = s\<lparr>mLinks := mapAssign (mLinks s) (Href link) link\<rparr> in
        if maxDepth = - 1 \<or> depth < maxDepth then
          (let s2 = s1\<lparr>expanded := expanded s1 @ [(Href link, depth)]\<rparr> in
           case parsePage E (Href link) domain of
             Panics p \<Rightarrow> Some (Panics p)
           | Returns (Inl err) \<Rightarrow> Some (Returns (Some err, s2))
           | Returns (Inr newLinks) \<Rightarrow>
               (case n of
                  0 \<Rightarrow> None
                | Suc k \<Rightarrow>
                    (case findAll E maxDepth k newLinks domain (depth + 1) s2 of
                       None \<Rightarrow> None
                     | Some (Panics p) \<Rightarrow> Some (Panics p)
                     | Some (Returns (dropped, s3)) \<Rightarrow>
                         findAll E maxDepth n links domain depth s3)))
        else findAll E maxDepth n links domain depth s1)"

section \<open>Output and \<open>main\<close>\<close>

text \<open>\<open>%d\<close> of a length, and \<open>fmt.Fprint\<close> of a slice of strings: \<open>[a b c]\<close>.\<close>

fun showNat :: "nat \<Rightarrow> string" where
  "showNat n =
     (if n < 10 then [char_of (48 + n)]
      else showNat (n div 10) @ [char_of (48 + n mod 10)])"

declare showNat.simps [simp del]

fun joinSpace :: "string list \<Rightarrow> string" where
  "joinSpace [] = []"
| "joinSpace [x] = x"
| "joinSpace (x # y # xs) = x @ '' '' @ joinSpace (y # xs)"

definition Fprint :: "string list \<Rightarrow> string" where
  "Fprint urls = ''['' @ joinSpace urls @ '']''"

text \<open>
  \<open>writeBuf\<close> returns what it prints. \<open>sort.Strings\<close> is \<open>sort\<close>: strings that compare
  equal are equal, so every correct sort gives the same slice.
\<close>

definition writeBuf :: "env \<Rightarrow> registry \<Rightarrow> string" where
  "writeBuf E m =
     (let line = ''Number of links : '' @ showNat (length m) @ [CHR 0x0A];
          urls = map Href (mapRange E (map snd m))
      in line @ Fprint (sort urls))"

definition xmlHeader :: string where
  "xmlHeader = ''<?xml version='' @ [CHR 0x22] @ ''1.0'' @ [CHR 0x22] @ '' encoding='' @
     [CHR 0x22] @ ''UTF-8'' @ [CHR 0x22] @ ''?>'' @ [CHR 0x0A]"

definition urlsetOpen :: string where
  "urlsetOpen = ''<urlset xmlns='' @ [CHR 0x22] @
     ''http://www.sitemaps.org/schemas/sitemap/0.9'' @ [CHR 0x22] @ ''>''"

text \<open>
  \<open>writeXml\<close> returns its error and the file it leaves: the name and the bytes handed to
  \<open>f.Write\<close>. The results of the four \<open>f.Write\<close> calls are dropped in the source, so a
  failing write changes nothing of what \<open>writeXml\<close> returns. \<open>sort.Slice\<close> on \<open>url\<close>
  values is \<open>sort_key Loc\<close>: a \<open>url\<close> is its \<open>Loc\<close>, so equal keys are equal values.
\<close>

definition writeXml :: "env \<Rightarrow> string \<Rightarrow> registry \<Rightarrow> error option \<times> (string \<times> string) option" where
  "writeXml E filename m =
     (let urls = sort_key Loc (map (\<lambda>l. Url (Href l)) (mapRange E (map snd m))) in
      case xmlMarshalIndent E urls of
        Inl err \<Rightarrow> (Some err, None)
      | Inr output \<Rightarrow>
          (case osCreate E filename of
             Some err \<Rightarrow> (Some err, None)
           | None \<Rightarrow> (None, Some (filename, xmlHeader @ urlsetOpen @ output @ ''</urlset>''))))"

record flags =
  flagDomain :: string
  flagOutfile :: string
  flagDepth :: int

record effects =
  stdout :: string
  written :: "(string \<times> string) option"

text \<open>
  \<open>main\<close> after \<open>flag.Parse\<close>; \<open>fulldomain\<close> is the value of its local variable of that
  name, and the last argument bounds the nesting of \<open>findAll\<close>. It panics with the error of \<open>findAll\<close>; what \<open>writeXml\<close>
  returns is dropped (line 221). A process that panics exits with status 2, one whose
  \<open>main\<close> returns with status 0.
\<close>

definition fulldomain :: "string \<Rightarrow> string" where
  "fulldomain domain = (if \<not> hasScheme domain [] then schemes ! 0 @ domain else domain)"

definition main :: "env \<Rightarrow> flags \<Rightarrow> nat \<Rightarrow> effects exec option" where
  "main E F n =
     (let maxDepth = flagDepth F;
          links = [\<lparr>Href = fulldomain (flagDomain F), Text = ''Root link''\<rparr>]
      in case findAll E maxDepth n links (flagDomain F) 0 start of
           None \<Rightarrow> None
         | Some (Panics p) \<Rightarrow> Some (Panics p)
         | Some (Returns (Some err, s)) \<Rightarrow> Some (Panics (PanicErr err))
         | Some (Returns (None, s)) \<Rightarrow>
             if TrimSpace (flagOutfile F) = [] then
               Some (Returns \<lparr>stdout = writeBuf E (mLinks s), written = None\<rparr>)
             else
               Some (Returns \<lparr>stdout = [], written = snd (writeXml E (flagOutfile F) (mLinks s))\<rparr>))"

fun exitStatus :: "effects exec \<Rightarrow> nat" where
  "exitStatus (Panics p) = 2"
| "exitStatus (Returns out) = 0"

section \<open>Test doubles\<close>

text \<open>
  A small world to run the program in: a site is a table from URL to the anchors of
  its page. A URL outside the table cannot be fetched; the body of a page is its URL and
  parses to its anchors. The sort is the stable insertion sort and the map is visited
  in reverse order of insertion.
\<close>

definition anchor :: "string \<Rightarrow> Link" where
  "anchor h = \<lparr>Href = h, Text = []\<rparr>"

definition marshalPlain :: "url list \<Rightarrow> error + string" where
  "marshalPlain urls = Inr (concat (map (\<lambda>u. ''<url><loc>'' @ Loc u @ ''</loc></url>'') urls))"

definition mockEnv :: "(string \<times> Link list) list \<Rightarrow> (string \<Rightarrow> error option) \<Rightarrow> env" where
  "mockEnv pages create =
     \<lparr>httpGet = (\<lambda>url. case map_of pages url of None \<Rightarrow> Inl FetchError | Some ls \<Rightarrow> Inr (Inr url)),
      htmlParse = (\<lambda>body. case map_of pages body of None \<Rightarrow> Inl ParseError | Some ls \<Rightarrow> Inr ls),
      sortSlice = sort_key Href,
      mapRange = rev,
      xmlMarshalIndent = marshalPlain,
      osCreate = create\<rparr>"

definition created :: "string \<Rightarrow> error option" where
  "created filename = None"

definition notCreated :: "string \<Rightarrow> error option" where
  "notCreated filename = Some IOError"

text \<open>The end-to-end scenario of the specification.\<close>

definition siteSmall :: "(string \<times> Link list) list" where
  "siteSmall =
     [(''https://e.com'', [anchor ''/a'', anchor ''https://e.com/a'', anchor ''http://other.com/x'']),
      (''https://e.com/a'', [])]"

text \<open>Two pages that link to each other.\<close>

definition siteCycle :: "(string \<times> Link list) list" where
  "siteCycle =
     [(''https://e.com/a'', [anchor ''/b'']),
      (''https://e.com/b'', [anchor ''/a''])]"

text \<open>A chain of three pages.\<close>

definition siteChain :: "(string \<times> Link list) list" where
  "siteChain =
     [(''https://e.com'', [anchor ''/a'']),
      (''https://e.com/a'', [anchor ''/b'']),
      (''https://e.com/b'', [])]"

text \<open>A site whose page \<open>/c\<close>, linked from \<open>/a\<close>, cannot be fetched.\<close>

definition siteBroken :: "(string \<times> Link list) list" where
  "siteBroken =
     [(''https://e.com'', [anchor ''/a'', anchor ''/b'']),
      (''https://e.com/a'', [anchor ''/c'', anchor ''/d'']),
      (''https://e.com/b'', [])]"

text \<open>A root page with one anchor whose \<open>href\<close> attribute starts with a blank.\<close>

definition siteBlank :: "(string \<times> Link list) list" where
  "siteBlank = [(''https://example.com'', [anchor '' /a''])]"

section \<open>The sentences of the specification that the code is compared with\<close>

text \<open>
  The filter as section 4.3 of the specification words it: the trimmed \<open>href\<close> is not
  empty and starts with \<open>/\<close> or with \<open>http://<domain>/\<close> or \<open>https://<domain>/\<close>.
\<close>

definition spec_filter_passes :: "string \<Rightarrow> Link \<Rightarrow> bool" where
  "spec_filter_passes domain l =
     (let href = TrimSpace (Href l) in
      href \<noteq> [] \<and>
      (HasPrefix href ''/'' \<or> HasPrefix href (''http://'' @ domain @ ''/'') \<or>
       HasPrefix href (''https://'' @ domain @ ''/'')))"

section \<open>The binary search of \<open>purgeTwins\<close>\<close>

text \<open>
  On a predicate that is false below \<open>k\<close> and true from \<open>k\<close> on, the search returns \<open>k\<close>.
  The predicate is only ever asked at indices below the bound.
\<close>

lemma Search_loop_least:
  "i \<le> k \<Longrightarrow> k \<le> j \<Longrightarrow> (\<forall>h. i \<le> h \<and> h < k \<longrightarrow> \<not> f h) \<Longrightarrow>
   (\<forall>h. k \<le> h \<and> h < j \<longrightarrow> f h) \<Longrightarrow> Search_loop i j f = k"
proof (induction i j f rule: Search_loop.induct)
  case (1 i j f)
  show ?case
  proof (cases "i < j")
    case False
    with "1.prems" show ?thesis
      by (simp add: Search_loop.simps)
  next
    case True
    define h where "h = (i + j) div 2"
    have hb: "i \<le> h" "h < j"
      using True by (simp_all add: h_def)
    show ?thesis
    proof (cases "f h")
      case True
      with hb "1.prems" have "k \<le> h"
        by (meson not_le_imp_less)
      with "1.IH"(2) [OF \<open>i < j\<close> h_def] True "1.prems" hb
      have "Search_loop i h f = k"
        by simp
      with True \<open>i < j\<close> show ?thesis
        by (simp add: Search_loop.simps [of i j] h_def)
    next
      case False
      with hb "1.prems" have "h < k"
        by (meson not_le_imp_less)
      with "1.IH"(1) [OF \<open>i < j\<close> h_def] False "1.prems" hb
      have "Search_loop (h + 1) j f = k"
        by simp
      with False \<open>i < j\<close> show ?thesis
        by (simp add: Search_loop.simps [of i j] h_def)
    qed
  qed
qed

lemma Search_twin:
  assumes "sorted_wrt (<) (map Href u)" and "\<forall>x \<in> set u. Href x \<le> h"
  shows "(length u \<le> Search (length u) (\<lambda>i. h = Href (u ! i))) = (h \<notin> Href ` set u)"
proof (cases "h \<in> Href ` set u")
  case False
  then have "\<forall>i. 0 \<le> i \<and> i < length u \<longrightarrow> \<not> h = Href (u ! i)"
    by (metis image_eqI nth_mem)
  then have "Search_loop 0 (length u) (\<lambda>i. h = Href (u ! i)) = length u"
    by (intro Search_loop_least) auto
  with False show ?thesis
    by (simp add: Search_def)
next
  case True
  then obtain m where m: "m < length u" "Href (u ! m) = h"
    by (metis imageE in_set_conv_nth)
  have "m = length u - 1"
  proof (rule ccontr)
    assume "m \<noteq> length u - 1"
    with m have lt: "m < length u - 1" "length u - 1 < length u"
      by simp_all
    from assms(1) lt have "Href (u ! m) < Href (u ! (length u - 1))"
      by (simp add: sorted_wrt_iff_nth_less)
    moreover from assms(2) lt have "Href (u ! (length u - 1)) \<le> h"
      by simp
    ultimately show False
      using m by simp
  qed
  have low: "\<forall>i. 0 \<le> i \<and> i < length u - 1 \<longrightarrow> \<not> h = Href (u ! i)"
  proof (intro allI impI)
    fix i assume "0 \<le> i \<and> i < length u - 1"
    with m \<open>m = length u - 1\<close> have im: "i < m" "m < length u"
      by simp_all
    then have "map Href u ! i < map Href u ! m"
      using assms(1) by (intro sorted_wrt_nth_less) simp_all
    with im have "Href (u ! i) < Href (u ! m)"
      by simp
    with m show "\<not> h = Href (u ! i)"
      by simp
  qed
  have high: "\<forall>i. length u - 1 \<le> i \<and> i < length u \<longrightarrow> h = Href (u ! i)"
  proof (intro allI impI)
    fix i assume "length u - 1 \<le> i \<and> i < length u"
    then have "i = m"
      using \<open>m = length u - 1\<close> by arith
    with m show "h = Href (u ! i)"
      by simp
  qed
  have "Search_loop 0 (length u) (\<lambda>i. h = Href (u ! i)) = length u - 1"
    using low high m by (intro Search_loop_least) auto
  with True m show ?thesis
    by (simp add: Search_def)
qed

lemma purgeTwins_loop_inv:
  assumes "sorted (map Href links)" and "sorted_wrt (<) (map Href u)"
    and "\<forall>x \<in> set u. \<forall>y \<in> set links. Href x \<le> Href y"
  shows "sorted_wrt (<) (map Href (purgeTwins_loop links u)) \<and>
         Href ` set (purgeTwins_loop links u) = Href ` set u \<union> Href ` set links \<and>
         set (purgeTwins_loop links u) \<subseteq> set u \<union> set links"
  using assms
proof (induction links arbitrary: u)
  case Nil
  then show ?case by simp
next
  case (Cons l links)
  have le: "\<forall>x \<in> set u. Href x \<le> Href l"
    using Cons.prems(3) by simp
  note tw = Search_twin [OF Cons.prems(2) le]
  show ?case
  proof (cases "Href l \<in> Href ` set u")
    case True
    with tw have step: "purgeTwins_loop (l # links) u = purgeTwins_loop links u"
      by (simp add: Let_def)
    have "sorted (map Href links)"
      using Cons.prems(1) by simp
    moreover have "\<forall>x \<in> set u. \<forall>y \<in> set links. Href x \<le> Href y"
      using Cons.prems(3) by simp
    ultimately show ?thesis
      using Cons.IH [of u] Cons.prems(2) True unfolding step by auto
  next
    case False
    with tw have step: "purgeTwins_loop (l # links) u = purgeTwins_loop links (u @ [l])"
      by (simp add: Let_def)
    have s1: "sorted (map Href links)"
      using Cons.prems(1) by simp
    have "\<forall>x \<in> set u. Href x < Href l"
      using le False by (metis image_eqI order_le_imp_less_or_eq)
    then have s2: "sorted_wrt (<) (map Href (u @ [l]))"
      using Cons.prems(2) by (simp add: sorted_wrt_append)
    have s3: "\<forall>x \<in> set (u @ [l]). \<forall>y \<in> set links. Href x \<le> Href y"
      using Cons.prems(1,3) by auto
    show ?thesis
      using Cons.IH [OF s1 s2 s3] unfolding step by auto
  qed
qed

lemma purgeTwins_loop_strict:
  "sorted_wrt (<) (map Href (u @ links)) \<Longrightarrow> purgeTwins_loop links u = u @ links"
proof (induction links arbitrary: u)
  case Nil
  then show ?case by simp
next
  case (Cons l links)
  from Cons.prems have su: "sorted_wrt (<) (map Href u)" and lt: "\<forall>x \<in> set u. Href x < Href l"
    by (auto simp: sorted_wrt_append)
  then have "\<forall>x \<in> set u. Href x \<le> Href l" and "Href l \<notin> Href ` set u"
    by auto
  with Search_twin [OF su, of "Href l"]
  have "purgeTwins_loop (l # links) u = purgeTwins_loop links (u @ [l])"
    by (simp add: Let_def)
  with Cons.IH [of "u @ [l]"] Cons.prems show ?case
    by simp
qed

lemma sorted_by_distinct_key_unique:
  assumes "mset zs = mset ys" and "sorted (map Href zs)" and "sorted_wrt (<) (map Href ys)"
  shows "zs = ys"
proof -
  have d: "distinct (map Href ys)" and s: "sorted (map Href ys)"
    using assms(3) strict_sorted_iff by auto
  have m: "mset (map Href zs) = mset (map Href ys)"
    using assms(1) by (metis mset_map)
  then have "distinct (map Href zs)"
    using d by (metis mset_eq_imp_distinct_iff)
  moreover have "set (map Href zs) = set (map Href ys)"
    using m by (metis mset_eq_setD)
  ultimately have eq: "map Href zs = map Href ys"
    using assms(2) s d by (intro sorted_distinct_set_unique) auto
  have "inj_on Href (set zs \<union> set ys)"
    using d assms(1) by (metis distinct_map mset_eq_setD sup.idem)
  with eq show ?thesis
    by (simp add: inj_on_map_eq_map)
qed

lemma sortsByHref_sort_key: "sortsByHref (sort_key Href)"
  by (simp add: sortsByHref_def)

lemma purgeTwins_strict:
  assumes "sortsByHref srt"
  shows "sorted_wrt (<) (map Href (purgeTwins srt links))"
    and "Href ` set (purgeTwins srt links) = Href ` set links"
    and "set (purgeTwins srt links) \<subseteq> set links"
proof -
  have m: "mset (srt links) = mset links" and s: "sorted (map Href (srt links))"
    using assms by (simp_all add: sortsByHref_def)
  have e: "set (srt links) = set links"
    using m by (rule mset_eq_setD)
  note inv = purgeTwins_loop_inv [of "srt links" "[]"]
  show "sorted_wrt (<) (map Href (purgeTwins srt links))"
    using inv s by (simp add: purgeTwins_def)
  show "Href ` set (purgeTwins srt links) = Href ` set links"
    using inv s e by (simp add: purgeTwins_def)
  show "set (purgeTwins srt links) \<subseteq> set links"
    using inv s e by (simp add: purgeTwins_def)
qed

section \<open>The deduplicator\<close>

text \<open>
  C6. For every input sequence of links, and whatever order \<open>sort.Slice\<close> leaves among
  links of equal \<open>Href\<close>, \<open>purgeTwins\<close> returns a sequence that is sorted ascending by
  \<open>Href\<close>, in which every \<open>Href\<close> occurs once, whose \<open>Href\<close>s are exactly those of the
  input, and whose links are links of the input.
\<close>

theorem purgeTwins_sorted_unique:
  assumes "sortsByHref srt"
  shows "sorted (map Href (purgeTwins srt links)) \<and>
         distinct (map Href (purgeTwins srt links)) \<and>
         Href ` set (purgeTwins srt links) = Href ` set links \<and>
         set (purgeTwins srt links) \<subseteq> set links"
proof -
  have "sorted_wrt (<) (map Href (purgeTwins srt links))"
    using assms by (rule purgeTwins_strict)
  then have "sorted (map Href (purgeTwins srt links)) \<and> distinct (map Href (purgeTwins srt links))"
    using strict_sorted_iff by blast
  then show ?thesis
    using purgeTwins_strict(2,3) [OF assms] by blast
qed

theorem purgeTwins_sorted_unique_witness:
  "sortsByHref (sort_key Href) \<and>
   sorted (map Href (purgeTwins (sort_key Href)
     [\<lparr>Href = ''/b'', Text = ''one''\<rparr>, \<lparr>Href = ''/a'', Text = ''two''\<rparr>,
      \<lparr>Href = ''/b'', Text = ''three''\<rparr>])) \<and>
   distinct (map Href (purgeTwins (sort_key Href)
     [\<lparr>Href = ''/b'', Text = ''one''\<rparr>, \<lparr>Href = ''/a'', Text = ''two''\<rparr>,
      \<lparr>Href = ''/b'', Text = ''three''\<rparr>])) \<and>
   Href ` set (purgeTwins (sort_key Href)
     [\<lparr>Href = ''/b'', Text = ''one''\<rparr>, \<lparr>Href = ''/a'', Text = ''two''\<rparr>,
      \<lparr>Href = ''/b'', Text = ''three''\<rparr>]) = {''/a'', ''/b''}"
  using purgeTwins_sorted_unique [OF sortsByHref_sort_key,
    of "[\<lparr>Href = ''/b'', Text = ''one''\<rparr>, \<lparr>Href = ''/a'', Text = ''two''\<rparr>,
         \<lparr>Href = ''/b'', Text = ''three''\<rparr>]"]
  by (auto simp: sortsByHref_sort_key)

text \<open>
  C7. Deduplication is idempotent: for every input sequence \<open>S\<close> of links,
  \<open>purgeTwins (purgeTwins S) = purgeTwins S\<close>, as sequences of links with their texts.
\<close>

theorem purgeTwins_idempotent:
  assumes "sortsByHref srt"
  shows "purgeTwins srt (purgeTwins srt S) = purgeTwins srt S"
proof -
  let ?ys = "purgeTwins srt S"
  have strict: "sorted_wrt (<) (map Href ?ys)"
    using assms by (rule purgeTwins_strict)
  have "mset (srt ?ys) = mset ?ys" and "sorted (map Href (srt ?ys))"
    using assms by (simp_all add: sortsByHref_def)
  then have "srt ?ys = ?ys"
    using strict by (rule sorted_by_distinct_key_unique)
  then have "purgeTwins srt ?ys = purgeTwins_loop ?ys []"
    by (simp add: purgeTwins_def)
  also have "\<dots> = [] @ ?ys"
    using strict by (intro purgeTwins_loop_strict) simp
  finally show ?thesis
    by simp
qed

theorem purgeTwins_idempotent_witness:
  "sortsByHref (sort_key Href) \<and>
   purgeTwins (sort_key Href) (purgeTwins (sort_key Href)
     [\<lparr>Href = ''/b'', Text = ''one''\<rparr>, \<lparr>Href = ''/a'', Text = ''two''\<rparr>,
      \<lparr>Href = ''/b'', Text = ''three''\<rparr>]) =
   [\<lparr>Href = ''/a'', Text = ''two''\<rparr>, \<lparr>Href = ''/b'', Text = ''one''\<rparr>]"
proof -
  have "purgeTwins (sort_key Href)
     [\<lparr>Href = ''/b'', Text = ''one''\<rparr>, \<lparr>Href = ''/a'', Text = ''two''\<rparr>,
      \<lparr>Href = ''/b'', Text = ''three''\<rparr>] =
   [\<lparr>Href = ''/a'', Text = ''two''\<rparr>, \<lparr>Href = ''/b'', Text = ''one''\<rparr>]"
    by code_simp
  then show ?thesis
    using purgeTwins_idempotent [OF sortsByHref_sort_key,
      of "[\<lparr>Href = ''/b'', Text = ''one''\<rparr>, \<lparr>Href = ''/a'', Text = ''two''\<rparr>,
           \<lparr>Href = ''/b'', Text = ''three''\<rparr>]"]
    by (simp add: sortsByHref_sort_key)
qed

end
